theory Spec2Isabelle
  imports Main "HOL-Library.Sublist"
begin

section \<open>The JavaScript runtime: Date objects\<close>

text \<open>
  The plugin (\<^verbatim>\<open>src/main.ts\<close>) stores the start and end of an event as JavaScript
  \<^verbatim>\<open>Date\<close> objects and only ever looks at them through \<^verbatim>\<open>toDateString()\<close> and through
  \<^verbatim>\<open>format(d, 'HH:mm')\<close> of date-fns. A \<^verbatim>\<open>Date\<close> holds a time value: an integral number
  of milliseconds since the epoch, or NaN (an "Invalid Date"). The functions below follow
  the clauses of ECMA-262, section "Date Objects"; integer division in HOL is the floor
  division those clauses use. The offset of the local time zone is the one thing the
  standard leaves to the host, so it is a parameter \<open>tza\<close> of everything that renders
  local time (\<^verbatim>\<open>LocalTZA(t, true)\<close>: milliseconds to add to the UTC time value \<open>t\<close>).
\<close>

datatype Date = InvalidDate | TimeValue int

datatype exn = TypeError string | RangeError string | Error string

definition msPerDay :: int where
  "msPerDay = 86400000"

definition msPerHour :: int where
  "msPerHour = 3600000"

definition msPerMinute :: int where
  "msPerMinute = 60000"

definition Day :: "int \<Rightarrow> int" where
  "Day t = t div msPerDay"

definition DaysInYear :: "int \<Rightarrow> int" where
  "DaysInYear y =
     (if y mod 4 \<noteq> 0 then 365
      else if y mod 100 \<noteq> 0 then 366
      else if y mod 400 \<noteq> 0 then 365
      else 366)"

definition DayFromYear :: "int \<Rightarrow> int" where
  "DayFromYear y =
     365 * (y - 1970) + (y - 1969) div 4 - (y - 1901) div 100 + (y - 1601) div 400"

text \<open>
  \<^verbatim>\<open>YearFromTime(t)\<close> is "the largest integer y such that TimeFromYear(y) \<le> t". It is
  computed here by walking up from a year that is not too late; \<open>YearFromTime_spec\<close> and
  \<open>YearFromTime_largest\<close> below show that the result is the year the standard asks for.
\<close>

function yearSearch :: "int \<Rightarrow> int \<Rightarrow> int" where
  "yearSearch d y = (if DayFromYear (y + 1) \<le> d then yearSearch d (y + 1) else y)"
  by pat_completeness auto
termination
proof (relation "measure (\<lambda>(d, y). nat (d + 1 - DayFromYear (y + 1)))")
  show "wf (measure (\<lambda>(d, y). nat (d + 1 - DayFromYear (y + 1))))"
    by simp
next
  fix d y :: int
  assume le: "DayFromYear (y + 1) \<le> d"
  have a: "(y + 1 - 1969) div 4 \<le> (y + 1 + 1 - 1969) div 4"
    by (rule zdiv_mono1) simp_all
  have "(y + 1 + 1 - 1901) div 100 \<le> (y + 1 - 1901 + 100) div 100"
    by (rule zdiv_mono1) simp_all
  then have b: "(y + 1 + 1 - 1901) div 100 \<le> (y + 1 - 1901) div 100 + 1"
    by simp
  have c: "(y + 1 - 1601) div 400 \<le> (y + 1 + 1 - 1601) div 400"
    by (rule zdiv_mono1) simp_all
  have "p \<le> p' \<Longrightarrow> q' \<le> q + 1 \<Longrightarrow> r \<le> r' \<Longrightarrow>
      365 * (y + 1 - 1970) + p - q + r < 365 * (y + 1 + 1 - 1970) + p' - q' + r'"
    for p q r p' q' r' :: int
    by simp
  from this [OF a b c] have "DayFromYear (y + 1) < DayFromYear (y + 1 + 1)"
    unfolding DayFromYear_def .
  with le show "((d, y + 1), (d, y)) \<in> measure (\<lambda>(d, y). nat (d + 1 - DayFromYear (y + 1)))"
    by simp
qed

declare yearSearch.simps [simp del]

definition yearGuess :: "int \<Rightarrow> int" where
  "yearGuess d = 1970 + (if 0 \<le> d then d div 366 else d div 365)"

definition YearFromTime :: "int \<Rightarrow> int" where
  "YearFromTime t = yearSearch (Day t) (yearGuess (Day t))"

definition InLeapYear :: "int \<Rightarrow> int" where
  "InLeapYear t = (if DaysInYear (YearFromTime t) = 365 then 0 else 1)"

definition DayWithinYear :: "int \<Rightarrow> int" where
  "DayWithinYear t = Day t - DayFromYear (YearFromTime t)"

definition MonthFromTime :: "int \<Rightarrow> int" where
  "MonthFromTime t =
     (let d = DayWithinYear t; l = InLeapYear t in
      if d < 31 then 0
      else if d < 59 + l then 1
      else if d < 90 + l then 2
      else if d < 120 + l then 3
      else if d < 151 + l then 4
      else if d < 181 + l then 5
      else if d < 212 + l then 6
      else if d < 243 + l then 7
      else if d < 273 + l then 8
      else if d < 304 + l then 9
      else if d < 334 + l then 10
      else 11)"

definition DateFromTime :: "int \<Rightarrow> int" where
  "DateFromTime t =
     (let d = DayWithinYear t; l = InLeapYear t; m = MonthFromTime t in
      if m = 0 then d + 1
      else if m = 1 then d - 30
      else if m = 2 then d - 58 - l
      else if m = 3 then d - 89 - l
      else if m = 4 then d - 119 - l
      else if m = 5 then d - 150 - l
      else if m = 6 then d - 180 - l
      else if m = 7 then d - 211 - l
      else if m = 8 then d - 242 - l
      else if m = 9 then d - 272 - l
      else if m = 10 then d - 303 - l
      else d - 333 - l)"

definition WeekDay :: "int \<Rightarrow> int" where
  "WeekDay t = (Day t + 4) mod 7"

definition HourFromTime :: "int \<Rightarrow> int" where
  "HourFromTime t = (t div msPerHour) mod 24"

definition MinFromTime :: "int \<Rightarrow> int" where
  "MinFromTime t = (t div msPerMinute) mod 60"

definition LocalTime :: "(int \<Rightarrow> int) \<Rightarrow> int \<Rightarrow> int" where
  "LocalTime tza t = t + tza t"

subsection \<open>Rendering numbers and names\<close>

definition digit :: "nat \<Rightarrow> char" where
  "digit d = ''0123456789'' ! d"

fun decimal :: "nat \<Rightarrow> string" where
  "decimal n = (if n < 10 then [digit n] else decimal (n div 10) @ [digit (n mod 10)])"

declare decimal.simps [simp del]

text \<open>\<^verbatim>\<open>ToZeroPaddedDecimalString(n, minLength)\<close>, and \<^verbatim>\<open>addLeadingZeros\<close> of date-fns.\<close>

definition ToZeroPaddedDecimalString :: "nat \<Rightarrow> nat \<Rightarrow> string" where
  "ToZeroPaddedDecimalString n minLength =
     replicate (minLength - length (decimal n)) (CHR ''0'') @ decimal n"

definition weekdayName :: "int \<Rightarrow> string" where
  "weekdayName w =
     (if w = 0 then ''Sun'' else if w = 1 then ''Mon'' else if w = 2 then ''Tue''
      else if w = 3 then ''Wed'' else if w = 4 then ''Thu'' else if w = 5 then ''Fri''
      else ''Sat'')"

definition monthName :: "int \<Rightarrow> string" where
  "monthName m =
     (if m = 0 then ''Jan'' else if m = 1 then ''Feb'' else if m = 2 then ''Mar''
      else if m = 3 then ''Apr'' else if m = 4 then ''May'' else if m = 5 then ''Jun''
      else if m = 6 then ''Jul'' else if m = 7 then ''Aug'' else if m = 8 then ''Sep''
      else if m = 9 then ''Oct'' else if m = 10 then ''Nov'' else ''Dec'')"

text \<open>\<^verbatim>\<open>DateString(tv)\<close> of ECMA-262: weekday, month, two-digit day, signed four-digit year.\<close>

definition DateString :: "int \<Rightarrow> string" where
  "DateString tv =
     weekdayName (WeekDay tv) @ '' '' @ monthName (MonthFromTime tv) @ '' '' @
     ToZeroPaddedDecimalString (nat (DateFromTime tv)) 2 @ '' '' @
     (if 0 \<le> YearFromTime tv then '''' else ''-'') @
     ToZeroPaddedDecimalString (nat \<bar>YearFromTime tv\<bar>) 4"

text \<open>\<^verbatim>\<open>Date.prototype.toDateString()\<close>.\<close>

definition toDateString :: "(int \<Rightarrow> int) \<Rightarrow> Date \<Rightarrow> string" where
  "toDateString tza d =
     (case d of
        InvalidDate \<Rightarrow> ''Invalid Date''
      | TimeValue tv \<Rightarrow> DateString (LocalTime tza tv))"

text \<open>
  \<^verbatim>\<open>format(date, 'HH:mm')\<close> of date-fns: the hours and the minutes of the local time, each
  with a leading zero; date-fns throws \<^verbatim>\<open>RangeError('Invalid time value')\<close> when the date is
  invalid.
\<close>

definition format_HHmm :: "(int \<Rightarrow> int) \<Rightarrow> Date \<Rightarrow> exn + string" where
  "format_HHmm tza d =
     (case d of
        InvalidDate \<Rightarrow> Inl (RangeError ''Invalid time value'')
      | TimeValue tv \<Rightarrow>
          Inr (ToZeroPaddedDecimalString (nat (HourFromTime (LocalTime tza tv))) 2 @ '':'' @
               ToZeroPaddedDecimalString (nat (MinFromTime (LocalTime tza tv))) 2))"

text \<open>\<^verbatim>\<open>new Date(d)\<close> for a Date \<open>d\<close>: a fresh object with the time value of \<open>d\<close>.\<close>

definition new_Date :: "Date \<Rightarrow> Date" where
  "new_Date d = d"

section \<open>The plugin: data model\<close>

text \<open>\<^verbatim>\<open>interface Event\<close> and \<^verbatim>\<open>interface ICSReaderSettings\<close> of \<^verbatim>\<open>src/main.ts\<close>.\<close>

record Event =
  summary :: string
  start :: Date
  end_ :: Date

record ICSReaderSettings =
  icsDirectory :: string

text \<open>
  The fields of \<^verbatim>\<open>class ICSReaderPlugin\<close>. The notices the plugin has shown
  (\<^verbatim>\<open>new Notice(...)\<close>) are kept as a list, oldest first, so that reporting is part of
  the state.
\<close>

record ICSReaderPlugin =
  settings :: ICSReaderSettings
  events :: "Event list"
  notices :: "string list"

subsection \<open>The host and the calendar library\<close>

text \<open>
  The vault of the host application and the ical.js library are not part of the
  repository; the plugin reaches them through the calls below, which are parameters of the
  model. A call that can throw returns a sum, \<open>Inl\<close> carrying the exception.
  \<^verbatim>\<open>ICAL.Event.startDate\<close> is \<^verbatim>\<open>null\<close> when the component has no start date-time. The end
  date may be \<^verbatim>\<open>null\<close> in the model as well, so that no behaviour of the library is assumed
  for it: a library that derives a missing end from the start never returns that value.
\<close>

record TFile =
  path :: string
  extension :: string

record 't ICAL_Event =
  ical_summary :: string
  startDate :: "'t option"
  endDate :: "'t option"

record ('j, 'c, 't) host =
  vault_getFiles :: "exn + TFile list"
  vault_read :: "TFile \<Rightarrow> exn + string"
  ICAL_parse :: "string \<Rightarrow> exn + 'j"
  ICAL_Component :: "'j \<Rightarrow> 'c"
  getAllSubcomponents :: "'c \<Rightarrow> string \<Rightarrow> 'c list"
  new_ICAL_Event :: "'c \<Rightarrow> 't ICAL_Event"
  toJSDate :: "'t \<Rightarrow> Date"

definition startsWith :: "string \<Rightarrow> string \<Rightarrow> bool" where
  "startsWith s searchString = (take (length searchString) s = searchString)"

section \<open>Loading: \<^verbatim>\<open>loadEvents\<close>\<close>

text \<open>
  The callback of \<^verbatim>\<open>vevents.map\<close> (lines 128 to 135): calling \<^verbatim>\<open>toJSDate()\<close> on a \<^verbatim>\<open>null\<close>
  start or end date throws a \<^verbatim>\<open>TypeError\<close>.
\<close>

definition toEvent :: "('j, 'c, 't) host \<Rightarrow> 'c \<Rightarrow> exn + Event" where
  "toEvent h vevent =
     (let event = new_ICAL_Event h vevent in
      case startDate event of
        None \<Rightarrow> Inl (TypeError ''Cannot read properties of null'')
      | Some sd \<Rightarrow>
          (case endDate event of
             None \<Rightarrow> Inl (TypeError ''Cannot read properties of null'')
           | Some ed \<Rightarrow>
               Inr \<lparr>summary = ical_summary event, start = toJSDate h sd, end_ = toJSDate h ed\<rparr>))"

text \<open>\<^verbatim>\<open>Array.prototype.map\<close> with a callback that may throw: the first exception ends it.\<close>

fun mapE :: "('a \<Rightarrow> exn + 'b) \<Rightarrow> 'a list \<Rightarrow> exn + 'b list" where
  "mapE f [] = Inr []"
| "mapE f (x # xs) =
     (case f x of
        Inl e \<Rightarrow> Inl e
      | Inr y \<Rightarrow> (case mapE f xs of Inl e \<Rightarrow> Inl e | Inr ys \<Rightarrow> Inr (y # ys)))"

text \<open>
  The body of the inner \<^verbatim>\<open>try\<close> (lines 114 to 135) up to the argument of \<^verbatim>\<open>push\<close>,
  in two steps: \<open>readComponents\<close> is lines 114 to 125 (read the file, parse it, take the
  \<^verbatim>\<open>vevent\<close> components), \<open>processFile\<close> adds the \<^verbatim>\<open>map\<close> of lines 128 to 135. The
  result is the events of one file, or the exception that reading, parsing or converting
  threw. (The test \<^verbatim>\<open>typeof ICAL.parse !== 'function'\<close> is about the binding of the
  library; here \<open>ICAL_parse\<close> is a function by its type.)
\<close>

definition readComponents :: "('j, 'c, 't) host \<Rightarrow> TFile \<Rightarrow> exn + 'c list" where
  "readComponents h file =
     (case vault_read h file of
        Inl e \<Rightarrow> Inl e
      | Inr icsData \<Rightarrow>
          (case ICAL_parse h icsData of
             Inl e \<Rightarrow> Inl e
           | Inr jcalData \<Rightarrow>
               (let comp = ICAL_Component h jcalData
                in Inr (getAllSubcomponents h comp ''vevent''))))"

definition processFile :: "('j, 'c, 't) host \<Rightarrow> TFile \<Rightarrow> exn + Event list" where
  "processFile h file =
     (case readComponents h file of
        Inl e \<Rightarrow> Inl e
      | Inr vevents \<Rightarrow> mapE (toEvent h) vevents)"

text \<open>
  One iteration of \<^verbatim>\<open>for (const file of icsFiles)\<close>: \<^verbatim>\<open>this.events.push(...)\<close> when the body
  succeeds; the \<^verbatim>\<open>catch (fileError)\<close> only logs, and leaves \<^verbatim>\<open>this.events\<close> as it is.
\<close>

definition pushFile :: "('j, 'c, 't) host \<Rightarrow> TFile \<Rightarrow> Event list \<Rightarrow> Event list" where
  "pushFile h file evs =
     (case processFile h file of
        Inl fileError \<Rightarrow> evs
      | Inr new \<Rightarrow> evs @ new)"

fun loadLoop :: "('j, 'c, 't) host \<Rightarrow> TFile list \<Rightarrow> Event list \<Rightarrow> Event list" where
  "loadLoop h [] evs = evs"
| "loadLoop h (file # files) evs = loadLoop h files (pushFile h file evs)"

definition isIcsFile :: "string \<Rightarrow> TFile \<Rightarrow> bool" where
  "isIcsFile dir file \<longleftrightarrow> startsWith (path file) dir \<and> extension file = ''ics''"

definition notify :: "string \<Rightarrow> ICSReaderPlugin \<Rightarrow> ICSReaderPlugin" where
  "notify msg p = p\<lparr>notices := notices p @ [msg]\<rparr>"

text \<open>
  \<^verbatim>\<open>loadEvents\<close> (lines 97 to 147). The result is a sum so that an exception leaving the
  method would be visible as \<open>Inl\<close>.
\<close>

definition loadEvents :: "('j, 'c, 't) host \<Rightarrow> ICSReaderPlugin \<Rightarrow> exn + ICSReaderPlugin" where
  "loadEvents h p =
     (let dir = icsDirectory (settings p) in
      if dir = [] then
        Inr (notify ''ICS directory not set. Please configure in settings.'' p)
      else
        (case
           (case vault_getFiles h of
              Inl e \<Rightarrow> Inl e
            | Inr files \<Rightarrow>
                (let icsFiles = filter (isIcsFile dir) files;
                     evs = loadLoop h icsFiles []
                 in Inr (notify (''Loaded '' @ decimal (length evs) @ '' events from ICS files.'')
                           (p\<lparr>events := evs\<rparr>))))
         of
           Inl error \<Rightarrow> Inr (notify ''Error loading ICS files. Check console for details.'' p)
         | Inr p' \<Rightarrow> Inr p'))"

text \<open>
  \<^verbatim>\<open>loadEvents\<close> is an \<^verbatim>\<open>async\<close> method: it is suspended at every
  \<^verbatim>\<open>await this.app.vault.read(file)\<close> (line 114), and a command or a template may call a
  query of the plugin while it is. \<open>loadLoop_awaits\<close> lists the value of \<^verbatim>\<open>this.events\<close>
  at these suspensions, one for each file, in order.
\<close>

fun loadLoop_awaits :: "('j, 'c, 't) host \<Rightarrow> TFile list \<Rightarrow> Event list \<Rightarrow> Event list list" where
  "loadLoop_awaits h [] evs = []"
| "loadLoop_awaits h (file # files) evs = evs # loadLoop_awaits h files (pushFile h file evs)"

definition loadEvents_awaits :: "('j, 'c, 't) host \<Rightarrow> ICSReaderPlugin \<Rightarrow> ICSReaderPlugin list" where
  "loadEvents_awaits h p =
     (let dir = icsDirectory (settings p) in
      if dir = [] then []
      else
        (case vault_getFiles h of
           Inl e \<Rightarrow> []
         | Inr files \<Rightarrow>
             map (\<lambda>evs. p\<lparr>events := evs\<rparr>) (loadLoop_awaits h (filter (isIcsFile dir) files) [])))"

section \<open>Queries and rendering\<close>

text \<open>\<^verbatim>\<open>getTodaysEvents\<close> (lines 187 to 193); \<open>today\<close> is what \<^verbatim>\<open>new Date()\<close> returned.\<close>

definition getTodaysEvents :: "(int \<Rightarrow> int) \<Rightarrow> Date \<Rightarrow> ICSReaderPlugin \<Rightarrow> Event list" where
  "getTodaysEvents tza today p =
     filter (\<lambda>event. let eventDate = new_Date (start event)
                      in toDateString tza eventDate = toDateString tza today)
       (events p)"

text \<open>\<^verbatim>\<open>getEventsForDate\<close> (lines 211 to 216).\<close>

definition getEventsForDate :: "(int \<Rightarrow> int) \<Rightarrow> ICSReaderPlugin \<Rightarrow> Date \<Rightarrow> Event list" where
  "getEventsForDate tza p date =
     filter (\<lambda>event. let eventDate = new_Date (start event)
                      in toDateString tza eventDate = toDateString tza date)
       (events p)"

text \<open>
  \<^verbatim>\<open>formatEvents\<close> (lines 219 to 231). The \<^verbatim>\<open>forEach\<close> loop appends one row to
  \<^verbatim>\<open>eventString\<close> for each event; \<^verbatim>\<open>format\<close> may throw.
\<close>

fun formatEvents_rows :: "(int \<Rightarrow> int) \<Rightarrow> Event list \<Rightarrow> string \<Rightarrow> exn + string" where
  "formatEvents_rows tza [] eventString = Inr eventString"
| "formatEvents_rows tza (event # rest) eventString =
     (case format_HHmm tza (start event) of
        Inl e \<Rightarrow> Inl e
      | Inr startTime \<Rightarrow>
          formatEvents_rows tza rest
            (eventString @ ''| '' @ startTime @ '' | '' @ summary event @ '' |\<newline>''))"

definition formatEvents :: "(int \<Rightarrow> int) \<Rightarrow> Event list \<Rightarrow> exn + string" where
  "formatEvents tza evs =
     (if length evs = 0 then Inr ''No events for this date.''
      else formatEvents_rows tza evs ''| Time | Event |\<newline>|------|-------|\<newline>'')"

text \<open>\<^verbatim>\<open>getTodaysEventsForTemplater\<close> (lines 195 to 208), with a loop of its own.\<close>

fun templater_rows :: "(int \<Rightarrow> int) \<Rightarrow> Event list \<Rightarrow> string \<Rightarrow> exn + string" where
  "templater_rows tza [] eventString = Inr eventString"
| "templater_rows tza (event # rest) eventString =
     (case format_HHmm tza (start event) of
        Inl e \<Rightarrow> Inl e
      | Inr startTime \<Rightarrow>
          templater_rows tza rest
            (eventString @ ''| '' @ startTime @ '' | '' @ summary event @ '' |\<newline>''))"

definition getTodaysEventsForTemplater ::
  "(int \<Rightarrow> int) \<Rightarrow> Date \<Rightarrow> ICSReaderPlugin \<Rightarrow> exn + string" where
  "getTodaysEventsForTemplater tza today p =
     (let todaysEvents = getTodaysEvents tza today p in
      if length todaysEvents = 0 then Inr ''No events for today.''
      else templater_rows tza todaysEvents ''| Time | Event |\<newline>|------|-------|\<newline>'')"

text \<open>
  The callback of the command \<^verbatim>\<open>get-todays-events-for-templater\<close> registered in
  \<^verbatim>\<open>onload\<close> (lines 63 to 76): a third copy of the renderer.
\<close>

fun command_rows :: "(int \<Rightarrow> int) \<Rightarrow> Event list \<Rightarrow> string \<Rightarrow> exn + string" where
  "command_rows tza [] eventString = Inr eventString"
| "command_rows tza (event # rest) eventString =
     (case format_HHmm tza (start event) of
        Inl e \<Rightarrow> Inl e
      | Inr startTime \<Rightarrow>
          command_rows tza rest
            (eventString @ ''| '' @ startTime @ '' | '' @ summary event @ '' |\<newline>''))"

definition templaterCommand :: "(int \<Rightarrow> int) \<Rightarrow> Date \<Rightarrow> ICSReaderPlugin \<Rightarrow> exn + string" where
  "templaterCommand tza today p =
     (let todaysEvents = getTodaysEvents tza today p in
      if length todaysEvents = 0 then Inr ''No events for today.''
      else command_rows tza todaysEvents ''| Time | Event |\<newline>|------|-------|\<newline>'')"

section \<open>The plugin as a state machine\<close>

text \<open>
  The calls the host makes on the plugin object, and what each does to the state. A call
  that needs the clock carries the value \<^verbatim>\<open>new Date()\<close> returned; \<open>SetIcsDirectory\<close> is
  the \<^verbatim>\<open>onChange\<close> of the settings tab (line 261).
\<close>

datatype request =
    LoadEvents
  | GetEventsForDate Date
  | GetTodaysEvents Date
  | GetTodaysEventsForTemplater Date
  | FormatEvents "Event list"
  | SetIcsDirectory string

datatype response =
    Done
  | Raised exn
  | Events "Event list"
  | Text "exn + string"

definition invoke ::
  "('j, 'c, 't) host \<Rightarrow> (int \<Rightarrow> int) \<Rightarrow> request \<Rightarrow> ICSReaderPlugin \<Rightarrow> response \<times> ICSReaderPlugin" where
  "invoke h tza r p =
     (case r of
        LoadEvents \<Rightarrow> (case loadEvents h p of Inl e \<Rightarrow> (Raised e, p) | Inr p' \<Rightarrow> (Done, p'))
      | GetEventsForDate d \<Rightarrow> (Events (getEventsForDate tza p d), p)
      | GetTodaysEvents today \<Rightarrow> (Events (getTodaysEvents tza today p), p)
      | GetTodaysEventsForTemplater today \<Rightarrow> (Text (getTodaysEventsForTemplater tza today p), p)
      | FormatEvents evs \<Rightarrow> (Text (formatEvents tza evs), p)
      | SetIcsDirectory dir \<Rightarrow> (Done, p\<lparr>settings := (settings p)\<lparr>icsDirectory := dir\<rparr>\<rparr>))"

fun run ::
  "('j, 'c, 't) host \<Rightarrow> (int \<Rightarrow> int) \<Rightarrow> request list \<Rightarrow> ICSReaderPlugin \<Rightarrow> response list \<times> ICSReaderPlugin" where
  "run h tza [] p = ([], p)"
| "run h tza (r # rs) p =
     (let (x, p') = invoke h tza r p; (xs, p'') = run h tza rs p' in (x # xs, p''))"

section \<open>The calendar day of an instant\<close>



text \<open>
  The contribution of one document to a load, as the code has it (used for C3): all of its
  events when every event component converts, and nothing otherwise.
\<close>

definition documentEvents :: "('j, 'c, 't) host \<Rightarrow> TFile \<Rightarrow> Event list" where
  "documentEvents h file =
     (case readComponents h file of
        Inl e \<Rightarrow> []
      | Inr vevents \<Rightarrow>
          if list_all (\<lambda>v. \<not> isl (toEvent h v)) vevents
          then map (\<lambda>v. projr (toEvent h v)) vevents
          else [])"

text \<open>
  What C3 asks of a document: the events of its well-formed components, the malformed ones
  left out one by one.
\<close>

definition wellFormedEvents :: "('j, 'c, 't) host \<Rightarrow> TFile \<Rightarrow> Event list" where
  "wellFormedEvents h file =
     (case readComponents h file of
        Inl e \<Rightarrow> []
      | Inr vevents \<Rightarrow>
          map (\<lambda>v. projr (toEvent h v)) (filter (\<lambda>v. \<not> isl (toEvent h v)) vevents))"

text \<open>
  The 24-hour clock time of an instant (used for C6), stated without the functions the
  model of \<^verbatim>\<open>format\<close> is built from: take the milliseconds since local midnight; the hour is
  the number of whole hours in them, the minute the number of whole minutes in what is left
  of the hour; each is written with two decimal digits, a colon between them. Then the
  table row of an event.
\<close>

definition twoDigits :: "nat \<Rightarrow> string" where
  "twoDigits n = [''0123456789'' ! (n div 10), ''0123456789'' ! (n mod 10)]"

definition clock24 :: "(int \<Rightarrow> int) \<Rightarrow> int \<Rightarrow> string" where
  "clock24 tza t =
     (let sinceMidnight = (t + tza t) mod 86400000;
          hour = sinceMidnight div 3600000;
          minute = (sinceMidnight mod 3600000) div 60000
      in twoDigits (nat hour) @ '':'' @ twoDigits (nat minute))"

definition tableRow :: "(int \<Rightarrow> int) \<Rightarrow> Event \<Rightarrow> string" where
  "tableRow tza event =
     (case start event of
        InvalidDate \<Rightarrow> []
      | TimeValue t \<Rightarrow> ''| '' @ clock24 tza t @ '' | '' @ summary event @ '' |\<newline>'')"

subsection \<open>Example data\<close>

text \<open>
  Three events in collection order: 15 January 2024 at 15:00 UTC, 16 January at 09:00 and
  15 January at 09:00.
\<close>

definition demo_events :: "Event list" where
  "demo_events =
     [\<lparr>summary = ''Review'', start = TimeValue 1705330800000, end_ = TimeValue 1705334400000\<rparr>,
      \<lparr>summary = ''Offsite'', start = TimeValue 1705395600000, end_ = TimeValue 1705399200000\<rparr>,
      \<lparr>summary = ''Standup'', start = TimeValue 1705309200000, end_ = TimeValue 1705311000000\<rparr>]"

definition demo_plugin :: ICSReaderPlugin where
  "demo_plugin = \<lparr>settings = \<lparr>icsDirectory = ''cal''\<rparr>, events = demo_events, notices = []\<rparr>"

text \<open>The local time zone of the examples: one hour ahead of UTC.\<close>

definition demo_tza :: "int \<Rightarrow> int" where
  "demo_tza t = 3600000"

text \<open>
  A vault and a calendar library to run the loader on. The text of a file is its path;
  \<^verbatim>\<open>cal/gone.ics\<close> cannot be read, \<^verbatim>\<open>cal/broken.ics\<close> does not parse,
  \<^verbatim>\<open>cal/work.ics\<close> holds two events, \<^verbatim>\<open>cal/home.ics\<close> one, and \<^verbatim>\<open>cal/mixed.ics\<close> holds one
  event with both dates and one without a start date.
\<close>

definition demo_component :: "string \<Rightarrow> int ICAL_Event" where
  "demo_component v =
     (if v = ''standup'' then
        \<lparr>ical_summary = ''Standup'', startDate = Some 1705309200000, endDate = Some 1705311000000\<rparr>
      else if v = ''review'' then
        \<lparr>ical_summary = ''Review'', startDate = Some 1705330800000, endDate = Some 1705334400000\<rparr>
      else if v = ''dinner'' then
        \<lparr>ical_summary = ''Dinner'', startDate = Some 1705345200000, endDate = Some 1705352400000\<rparr>
      else if v = ''offsite'' then
        \<lparr>ical_summary = ''Offsite'', startDate = Some 1705395600000, endDate = Some 1705399200000\<rparr>
      else
        \<lparr>ical_summary = ''Undated'', startDate = None, endDate = Some 1705399200000\<rparr>)"

definition demo_host :: "TFile list \<Rightarrow> (string, string, int) host" where
  "demo_host files =
     \<lparr>vault_getFiles = Inr files,
      vault_read = (\<lambda>file. if path file = ''cal/gone.ics'' then Inl (Error ''ENOENT'')
                            else Inr (path file)),
      ICAL_parse = (\<lambda>text. if text = ''cal/broken.ics'' then Inl (Error ''invalid ical body'')
                             else Inr text),
      ICAL_Component = (\<lambda>jcal. jcal),
      getAllSubcomponents = (\<lambda>comp name.
        if name \<noteq> ''vevent'' then []
        else if comp = ''cal/work.ics'' then [''standup'', ''review'']
        else if comp = ''cal/home.ics'' then [''dinner'']
        else if comp = ''cal/mixed.ics'' then [''offsite'', ''undated'']
        else []),
      new_ICAL_Event = demo_component,
      toJSDate = TimeValue\<rparr>"

definition ics :: "string \<Rightarrow> TFile" where
  "ics name = \<lparr>path = ''cal/'' @ name @ ''.ics'', extension = ''ics''\<rparr>"

section \<open>Reading padded numbers back\<close>



section \<open>Facts about the calendar\<close>

lemma div_step:
  fixes x k :: int
  assumes k: "0 < k"
  shows "(x + 1) div k = x div k + (if (x + 1) mod k = 0 then 1 else 0)"
proof -
  define q r where "q = x div k" and "r = x mod k"
  have x: "x = k * q + r" and r: "0 \<le> r" "r < k"
    using k by (simp_all add: q_def r_def)
  show ?thesis
  proof (cases "r + 1 = k")
    case True
    then have "x + 1 = k * (q + 1) + 0" using x by (simp add: algebra_simps)
    then have "(x + 1) div k = q + 1" "(x + 1) mod k = 0"
      using k by simp_all
    then show ?thesis by (simp add: q_def)
  next
    case False
    then have lt: "0 \<le> r + 1" "r + 1 < k" using r by linarith+
    have e: "x + 1 = k * q + (r + 1)" using x by linarith
    have "(k * q + (r + 1)) div k = q" "(k * q + (r + 1)) mod k = r + 1"
      using lt k by simp_all
    then have "(x + 1) div k = q" "(x + 1) mod k = r + 1"
      unfolding e by blast+
    then show ?thesis using r by (simp add: q_def)
  qed
qed

lemma mod_shift: "(y - k * n) mod k = (y :: int) mod k"
proof -
  have "(y + k * (- n)) mod k = y mod k" by (rule mod_mult_self2)
  then show ?thesis by simp
qed

lemma mod_100_imp_mod_4: "(y::int) mod 100 = 0 \<Longrightarrow> y mod 4 = 0"
proof -
  assume "y mod 100 = 0"
  then have "100 dvd y" by (simp add: mod_eq_0_iff_dvd)
  moreover have "(4::int) dvd 100" by simp
  ultimately have "4 dvd y" by (rule dvd_trans [rotated])
  then show ?thesis by simp
qed

lemma mod_400_imp_mod_100: "(y::int) mod 400 = 0 \<Longrightarrow> y mod 100 = 0"
proof -
  assume "y mod 400 = 0"
  then have "400 dvd y" by (simp add: mod_eq_0_iff_dvd)
  moreover have "(100::int) dvd 400" by simp
  ultimately have "100 dvd y" by (rule dvd_trans [rotated])
  then show ?thesis by simp
qed


lemma DayFromYear_step: "DayFromYear (y + 1) = DayFromYear y + DaysInYear y"
proof -
  have a: "(y + 1 - 1969) div 4 = (y - 1969) div 4 + (if y mod 4 = 0 then 1 else 0)"
    using div_step [of 4 "y - 1969"] mod_shift [of y 4 492] by (simp add: algebra_simps)
  have b: "(y + 1 - 1901) div 100 = (y - 1901) div 100 + (if y mod 100 = 0 then 1 else 0)"
    using div_step [of 100 "y - 1901"] mod_shift [of y 100 19] by (simp add: algebra_simps)
  have c: "(y + 1 - 1601) div 400 = (y - 1601) div 400 + (if y mod 400 = 0 then 1 else 0)"
    using div_step [of 400 "y - 1601"] mod_shift [of y 400 4] by (simp add: algebra_simps)
  show ?thesis
    unfolding DayFromYear_def DaysInYear_def a b c using mod_100_imp_mod_4 [of y] mod_400_imp_mod_100 [of y] by auto
qed


lemma DaysInYear_cases: "DaysInYear y = 365 \<or> DaysInYear y = 366"
  by (simp add: DaysInYear_def)

lemma yearSearch_spec:
  "DayFromYear y \<le> d \<Longrightarrow>
   DayFromYear (yearSearch d y) \<le> d \<and> d < DayFromYear (yearSearch d y + 1)"
proof (induction d y rule: yearSearch.induct)
  case (1 d y)
  show ?case
  proof (cases "DayFromYear (y + 1) \<le> d")
    case True
    with "1.IH" show ?thesis by (simp add: yearSearch.simps [of d y])
  next
    case False
    with "1.prems" show ?thesis by (simp add: yearSearch.simps [of d y])
  qed
qed

lemma yearGuess_le: "DayFromYear (yearGuess d) \<le> d"
proof (cases "0 \<le> d")
  case True
  define k where "k = d div 366"
  have k: "0 \<le> k" "366 * k \<le> d"
    using True by (simp_all add: k_def)
  define a b c where "a = (k + 1) div 4" and "b = (k + 69) div 100" and "c = (k + 369) div 400"
  have a: "4 * a \<le> k + 1" by (simp add: a_def)
  have b: "k + 69 < 100 * b + 100"
    using div_mult_mod_eq [of "k + 69" 100] pos_mod_bound [of 100 "k + 69"] by (simp add: b_def)
  have c: "400 * c \<le> k + 369" by (simp add: c_def)
  have "a - b + c \<le> k"
  proof (cases "2 \<le> k")
    case True
    with a b c show ?thesis by linarith
  next
    case False
    with k have "k = 0 \<or> k = 1" by linarith
    then show ?thesis by (auto simp: a_def b_def c_def)
  qed
  moreover have "DayFromYear (yearGuess d) = 365 * k + a - b + c"
    using True by (simp add: DayFromYear_def yearGuess_def k_def a_def b_def c_def add.commute)
  ultimately show ?thesis using k by linarith
next
  case False
  define k where "k = d div 365"
  have "k < 0"
    using False by (simp add: k_def div_neg_pos_less0)
  then have k: "k \<le> -1" "365 * k \<le> d"
    by (simp_all add: k_def)
  define a b c where "a = (k + 1) div 4" and "b = (k + 69) div 100" and "c = (k + 369) div 400"
  have a: "4 * a \<le> k + 1" by (simp add: a_def)
  have b: "k + 69 < 100 * b + 100"
    using div_mult_mod_eq [of "k + 69" 100] pos_mod_bound [of 100 "k + 69"] by (simp add: b_def)
  have c: "400 * c \<le> k + 369" by (simp add: c_def)
  have "a - b + c \<le> 0"
  proof (cases "k \<le> -7")
    case True
    with a b c show ?thesis by linarith
  next
    case False
    with k have "k = -1 \<or> k = -2 \<or> k = -3 \<or> k = -4 \<or> k = -5 \<or> k = -6" by linarith
    then show ?thesis by (auto simp: a_def b_def c_def)
  qed
  moreover have "DayFromYear (yearGuess d) = 365 * k + a - b + c"
    using False by (simp add: DayFromYear_def yearGuess_def k_def a_def b_def c_def add.commute)
  ultimately show ?thesis using k by linarith
qed

lemma YearFromTime_spec:
  "DayFromYear (YearFromTime t) \<le> Day t \<and> Day t < DayFromYear (YearFromTime t + 1)"
  unfolding YearFromTime_def by (rule yearSearch_spec) (rule yearGuess_le)

lemma DayFromYear_mono: "y \<le> y' \<Longrightarrow> DayFromYear y \<le> DayFromYear y'"
proof (induction y' rule: int_ge_induct)
  case base
  show ?case by simp
next
  case (step i)
  then show ?case
    using DayFromYear_step [of i] DaysInYear_cases [of i] by linarith
qed

lemma YearFromTime_largest: "DayFromYear y \<le> Day t \<Longrightarrow> y \<le> YearFromTime t"
proof (rule ccontr)
  assume le: "DayFromYear y \<le> Day t" and "\<not> y \<le> YearFromTime t"
  then have "YearFromTime t + 1 \<le> y" by simp
  then have "DayFromYear (YearFromTime t + 1) \<le> DayFromYear y" by (rule DayFromYear_mono)
  with le show False using YearFromTime_spec [of t] by linarith
qed








section \<open>Facts about rendered numbers and names\<close>















lemma padded_2_digits:
  assumes "n < 100"
  shows "ToZeroPaddedDecimalString n 2 = [digit (n div 10), digit (n mod 10)]"
proof (cases "n < 10")
  case True
  then show ?thesis
    by (simp add: ToZeroPaddedDecimalString_def decimal.simps [of n] digit_def)
next
  case False
  have "n div 10 < 10" using assms by simp
  then have "decimal (n div 10) = [digit (n div 10)]"
    by (simp add: decimal.simps [of "n div 10"])
  with False show ?thesis
    by (simp add: ToZeroPaddedDecimalString_def decimal.simps [of n])
qed

lemma length_weekdayName: "length (weekdayName w) = 3"
  by (simp add: weekdayName_def)




section \<open>Facts about \<^verbatim>\<open>toDateString\<close>\<close>


lemma DateString_not_Invalid: "DateString a \<noteq> ''Invalid Date''"
proof
  assume "DateString a = ''Invalid Date''"
  then have "take 3 (DateString a) = ''Inv''" by simp
  then have "weekdayName (WeekDay a) = ''Inv''"
    by (simp add: DateString_def length_weekdayName)
  then show False
    by (simp add: weekdayName_def split: if_splits)
qed






lemma getEventsForDate_invalid:
  "getEventsForDate tza p InvalidDate = filter (\<lambda>event. start event = InvalidDate) (events p)"
proof -
  have "toDateString tza d = toDateString tza InvalidDate \<longleftrightarrow> d = InvalidDate" for d
    using DateString_not_Invalid by (cases d) (simp_all add: toDateString_def)
  then show ?thesis
    by (simp add: getEventsForDate_def new_Date_def)
qed


section \<open>Facts about the loader\<close>

lemma mapE_all:
  "list_all (\<lambda>x. \<not> isl (f x)) xs \<Longrightarrow> mapE f xs = Inr (map (\<lambda>x. projr (f x)) xs)"
  by (induction xs) (auto split: sum.splits)

lemma mapE_some:
  "\<not> list_all (\<lambda>x. \<not> isl (f x)) xs \<Longrightarrow> isl (mapE f xs)"
  by (induction xs) (auto split: sum.splits)

lemma mapE_Inr: "mapE f xs = Inr ys \<Longrightarrow> map f xs = map Inr ys"
  by (induction xs arbitrary: ys) (auto split: sum.splits)

lemma pushFile_append: "pushFile h file evs = evs @ pushFile h file []"
  by (simp add: pushFile_def split: sum.splits)

lemma loadLoop_concat:
  "loadLoop h files evs = evs @ concat (map (\<lambda>file. pushFile h file []) files)"
proof (induction files arbitrary: evs)
  case Nil
  show ?case by simp
next
  case (Cons f fs)
  show ?case
    using pushFile_append [of h f evs] by (simp add: Cons.IH)
qed

lemma loadLoop_append: "loadLoop h (xs @ ys) evs = loadLoop h ys (loadLoop h xs evs)"
  by (induction xs arbitrary: evs) simp_all

lemma loadEvents_events:
  assumes "icsDirectory (settings p) \<noteq> []" "vault_getFiles h = Inr files"
  shows "loadEvents h p =
           Inr (notify (''Loaded '' @
                  decimal (length (loadLoop h (filter (isIcsFile (icsDirectory (settings p))) files) [])) @
                  '' events from ICS files.'')
                (p\<lparr>events := loadLoop h (filter (isIcsFile (icsDirectory (settings p))) files) []\<rparr>))"
  using assms by (simp add: loadEvents_def Let_def)

lemma events_notify: "events (notify msg p) = events p"
  by (simp add: notify_def)

lemma pushFile_processFile:
  "pushFile h file [] = (case processFile h file of Inl e \<Rightarrow> [] | Inr evs \<Rightarrow> evs)"
  by (simp add: pushFile_def split: sum.splits)

lemma processFile_components:
  "processFile h f = Inr evs \<Longrightarrow>
   \<exists>vevents. readComponents h f = Inr vevents \<and> map (toEvent h) vevents = map Inr evs"
  by (auto simp: processFile_def split: sum.splits dest: mapE_Inr)

lemma pushFile_documentEvents: "pushFile h file [] = documentEvents h file"
proof (cases "readComponents h file")
  case (Inl e)
  then show ?thesis
    by (simp add: pushFile_def processFile_def documentEvents_def)
next
  case (Inr vevents)
  show ?thesis
  proof (cases "list_all (\<lambda>v. \<not> isl (toEvent h v)) vevents")
    case True
    then show ?thesis
      using Inr mapE_all [of "toEvent h" vevents]
      by (simp add: pushFile_def processFile_def documentEvents_def)
  next
    case False
    then have "isl (mapE (toEvent h) vevents)" by (rule mapE_some)
    then obtain e where "mapE (toEvent h) vevents = Inl e"
      by (cases "mapE (toEvent h) vevents") simp_all
    then show ?thesis
      using Inr False by (simp add: pushFile_def processFile_def documentEvents_def)
  qed
qed

lemma concat_succeeded:
  "concat (map (\<lambda>x. case f x of Inl e \<Rightarrow> [] | Inr ys \<Rightarrow> ys) xs) =
   concat (map (\<lambda>x. projr (f x)) (filter (\<lambda>x. \<not> isl (f x)) xs))"
  by (induction xs) (auto split: sum.splits)

lemma length_loadLoop_awaits: "length (loadLoop_awaits h files evs) = length files"
  by (induction files arbitrary: evs) simp_all

lemma loadLoop_awaits_nth:
  "i < length files \<Longrightarrow> loadLoop_awaits h files evs ! i = loadLoop h (take i files) evs"
proof (induction files arbitrary: evs i)
  case Nil
  then show ?case by simp
next
  case (Cons f fs)
  then show ?case by (cases i) simp_all
qed

lemma loadLoop_take_prefix: "prefix (loadLoop h (take i files) evs) (loadLoop h files evs)"
proof -
  have "loadLoop h files evs = loadLoop h (drop i files) (loadLoop h (take i files) evs)"
    using loadLoop_append [of h "take i files" "drop i files" evs] by simp
  also have "\<dots> = loadLoop h (take i files) evs @
      concat (map (\<lambda>f. pushFile h f []) (drop i files))"
    by (rule loadLoop_concat)
  finally show ?thesis by (simp add: prefix_def)
qed

lemma loadEvents_awaits_events:
  assumes "icsDirectory (settings p) \<noteq> []" "vault_getFiles h = Inr files"
  shows "loadEvents_awaits h p =
           map (\<lambda>evs. p\<lparr>events := evs\<rparr>)
             (loadLoop_awaits h (filter (isIcsFile (icsDirectory (settings p))) files) [])"
  using assms by (simp add: loadEvents_awaits_def Let_def)

section \<open>Facts about the renderers and the state machine\<close>

lemma HourFromTime_bounds: "0 \<le> HourFromTime t \<and> HourFromTime t < 24"
  by (simp add: HourFromTime_def)

lemma MinFromTime_bounds: "0 \<le> MinFromTime t \<and> MinFromTime t < 60"
  by (simp add: MinFromTime_def)

lemma div_mod_split:
  fixes a b c :: int
  assumes b: "0 < b" and c: "0 \<le> c"
  shows "(a mod (b * c)) div b = (a div b) mod c"
proof -
  have r: "0 \<le> a mod b" "a mod b < b" using b by simp_all
  have "a mod (b * c) = b * (a div b mod c) + a mod b"
    using c by (rule zmod_zmult2_eq)
  moreover have "(b * (a div b mod c) + a mod b) div b = a div b mod c"
    using r b by simp
  ultimately show ?thesis by simp
qed

lemma mod_mod_split:
  fixes a b c :: int
  shows "(a mod (b * c)) mod b = a mod b"
  by (simp add: mod_mod_cancel)

lemma HourFromTime_split: "HourFromTime lt = (lt mod 86400000) div 3600000"
  using div_mod_split [of 3600000 24 lt] by (simp add: HourFromTime_def msPerHour_def)

lemma MinFromTime_split: "MinFromTime lt = ((lt mod 86400000) mod 3600000) div 60000"
proof -
  have "(lt mod 86400000) mod 3600000 = lt mod 3600000"
    using mod_mod_split [of lt 3600000 24] by simp
  then show ?thesis
    using div_mod_split [of 60000 60 lt] by (simp add: MinFromTime_def msPerMinute_def)
qed

lemma padded_twoDigits: "n < 100 \<Longrightarrow> ToZeroPaddedDecimalString n 2 = twoDigits n"
  by (simp add: padded_2_digits twoDigits_def digit_def)

lemma format_HHmm_clock24: "format_HHmm tza (TimeValue t) = Inr (clock24 tza t)"
proof -
  have h: "nat (HourFromTime (LocalTime tza t)) < 100"
    using HourFromTime_bounds [of "LocalTime tza t"] by linarith
  have m: "nat (MinFromTime (LocalTime tza t)) < 100"
    using MinFromTime_bounds [of "LocalTime tza t"] by linarith
  have "format_HHmm tza (TimeValue t) =
      Inr (twoDigits (nat (HourFromTime (LocalTime tza t))) @ '':'' @
           twoDigits (nat (MinFromTime (LocalTime tza t))))"
    by (simp add: format_HHmm_def padded_twoDigits [OF h] padded_twoDigits [OF m])
  also have "\<dots> = Inr (clock24 tza t)"
    unfolding HourFromTime_split MinFromTime_split
    by (simp add: clock24_def Let_def LocalTime_def)
  finally show ?thesis .
qed

lemma formatEvents_rows_table:
  "\<forall>e\<in>set evs. start e \<noteq> InvalidDate \<Longrightarrow>
   formatEvents_rows tza evs acc = Inr (acc @ concat (map (tableRow tza) evs))"
proof (induction evs arbitrary: acc)
  case Nil
  show ?case by simp
next
  case (Cons e evs)
  then obtain t where t: "start e = TimeValue t"
    by (cases "start e") simp_all
  from Cons.prems have "\<forall>e\<in>set evs. start e \<noteq> InvalidDate" by simp
  then show ?case
    by (simp add: Cons.IH t format_HHmm_clock24 tableRow_def)
qed

lemma formatEvents_rows_grows:
  "formatEvents_rows tza evs acc = Inr s \<Longrightarrow> length acc + length evs \<le> length s"
proof (induction evs arbitrary: acc)
  case Nil
  then show ?case by simp
next
  case (Cons e evs)
  then show ?case
    by (fastforce split: sum.splits dest: Cons.IH)
qed

lemma templater_rows_eq: "templater_rows tza evs acc = formatEvents_rows tza evs acc"
  by (induction evs arbitrary: acc) (simp_all split: sum.splits)

lemma command_rows_eq: "command_rows tza evs acc = formatEvents_rows tza evs acc"
  by (induction evs arbitrary: acc) (simp_all split: sum.splits)

lemma formatEvents_not_bare:
  "formatEvents tza evs \<noteq> Inr [] \<and>
   formatEvents tza evs \<noteq> Inr ''| Time | Event |\<newline>|------|-------|\<newline>''"
proof (cases "evs = []")
  case True
  then show ?thesis by (simp add: formatEvents_def)
next
  case False
  define header where "header = ''| Time | Event |\<newline>|------|-------|\<newline>''"
  have rows: "formatEvents tza evs = formatEvents_rows tza evs header"
    using False by (simp add: formatEvents_def header_def)
  have "length header < length s" if "formatEvents tza evs = Inr s" for s
  proof -
    have "length header + length evs \<le> length s"
      using that unfolding rows by (rule formatEvents_rows_grows)
    moreover have "0 < length evs" using False by simp
    ultimately show ?thesis by linarith
  qed
  then have "formatEvents tza evs \<noteq> Inr []" "formatEvents tza evs \<noteq> Inr header"
    by fastforce+
  then show ?thesis by (simp add: header_def)
qed

lemma formatEvents_rows_throws:
  "\<exists>e\<in>set evs. start e = InvalidDate \<Longrightarrow>
   formatEvents_rows tza evs acc = Inl (RangeError ''Invalid time value'')"
proof (induction evs arbitrary: acc)
  case Nil
  then show ?case by simp
next
  case (Cons e evs)
  show ?case
  proof (cases "start e")
    case InvalidDate
    then show ?thesis by (simp add: format_HHmm_def)
  next
    case (TimeValue t)
    with Cons.prems have "\<exists>e\<in>set evs. start e = InvalidDate" by auto
    then show ?thesis
      using TimeValue by (simp add: Cons.IH format_HHmm_def)
  qed
qed

lemma formatEvents_throws:
  "\<exists>e\<in>set evs. start e = InvalidDate \<Longrightarrow>
   formatEvents tza evs = Inl (RangeError ''Invalid time value'')"
  using formatEvents_rows_throws [of evs tza] by (auto simp: formatEvents_def)

lemma getTodaysEventsForTemplater_eq:
  "getTodaysEventsForTemplater tza today p =
     (if getTodaysEvents tza today p = [] then Inr ''No events for today.''
      else formatEvents tza (getTodaysEvents tza today p))"
  by (simp add: getTodaysEventsForTemplater_def formatEvents_def Let_def templater_rows_eq)

lemma templaterCommand_eq:
  "templaterCommand tza today p =
     (if getTodaysEvents tza today p = [] then Inr ''No events for today.''
      else formatEvents tza (getTodaysEvents tza today p))"
  by (simp add: templaterCommand_def formatEvents_def Let_def command_rows_eq)

lemma invoke_keeps_events:
  "r \<noteq> LoadEvents \<Longrightarrow> events (snd (invoke h tza r p)) = events p"
  by (cases r) (simp_all add: invoke_def)

lemma run_keeps_events:
  "LoadEvents \<notin> set rs \<Longrightarrow> events (snd (run h tza rs p)) = events p"
proof (induction rs arbitrary: p)
  case Nil
  show ?case by simp
next
  case (Cons r rs)
  from Cons.prems have "r \<noteq> LoadEvents" "LoadEvents \<notin> set rs" by auto
  then have "events (snd (run h tza rs (snd (invoke h tza r p)))) = events p"
    by (simp add: Cons.IH invoke_keeps_events)
  then show ?case
    by (simp add: split_beta)
qed

lemma run_append:
  "run h tza (rs @ rs') p =
     (fst (run h tza rs p) @ fst (run h tza rs' (snd (run h tza rs p))),
      snd (run h tza rs' (snd (run h tza rs p))))"
  by (induction rs arbitrary: p) (simp_all add: split_beta)

lemma getEventsForDate_cong:
  "events p = events q \<Longrightarrow> getEventsForDate tza p d = getEventsForDate tza q d"
  by (simp add: getEventsForDate_def)

section \<open>The examples, evaluated\<close>

lemmas calendar_defs = toDateString_def DateString_def LocalTime_def WeekDay_def Day_def msPerDay_def
  MonthFromTime_def DateFromTime_def DayWithinYear_def InLeapYear_def YearFromTime_def yearGuess_def
  DayFromYear_def DaysInYear_def weekdayName_def monthName_def ToZeroPaddedDecimalString_def
  decimal.simps digit_def yearSearch.simps

lemma demo_day_target: "toDateString demo_tza (TimeValue 1705273200000) = ''Mon Jan 15 2024''"
  by (simp add: calendar_defs demo_tza_def)

lemma demo_day_standup: "toDateString demo_tza (TimeValue 1705309200000) = ''Mon Jan 15 2024''"
  by (simp add: calendar_defs demo_tza_def)

lemma demo_day_review: "toDateString demo_tza (TimeValue 1705330800000) = ''Mon Jan 15 2024''"
  by (simp add: calendar_defs demo_tza_def)

lemma demo_day_dinner: "toDateString demo_tza (TimeValue 1705345200000) = ''Mon Jan 15 2024''"
  by (simp add: calendar_defs demo_tza_def)

lemma demo_day_offsite: "toDateString demo_tza (TimeValue 1705395600000) = ''Tue Jan 16 2024''"
  by (simp add: calendar_defs demo_tza_def)

lemmas demo_days = demo_day_target demo_day_standup demo_day_review demo_day_dinner
  demo_day_offsite

lemma demo_today:
  "getTodaysEvents demo_tza (TimeValue 1705273200000) demo_plugin =
     [\<lparr>summary = ''Review'', start = TimeValue 1705330800000, end_ = TimeValue 1705334400000\<rparr>,
      \<lparr>summary = ''Standup'', start = TimeValue 1705309200000, end_ = TimeValue 1705311000000\<rparr>]"
  by (simp add: getTodaysEvents_def new_Date_def demo_plugin_def demo_events_def demo_days)


lemma demo_rows:
  "tableRow demo_tza \<lparr>summary = ''Lunch'', start = TimeValue 1705318500000, end_ = TimeValue 1705322100000\<rparr> =
     ''| 12:35 | Lunch |\<newline>''"
  "tableRow demo_tza \<lparr>summary = ''Coffee'', start = TimeValue 1705305900000, end_ = TimeValue 1705306800000\<rparr> =
     ''| 09:05 | Coffee |\<newline>''"
  "tableRow demo_tza \<lparr>summary = ''Late'', start = TimeValue 1705359540000, end_ = TimeValue 1705363140000\<rparr> =
     ''| 23:59 | Late |\<newline>''"
  by (simp_all add: tableRow_def clock24_def twoDigits_def demo_tza_def)

lemma isIcsFile_ics: "isIcsFile ''cal'' (ics name)"
  by (simp add: isIcsFile_def ics_def startsWith_def)

lemmas demo_defs = demo_host_def demo_component_def ics_def readComponents_def processFile_def
  toEvent_def pushFile_def documentEvents_def

lemma demo_work:
  "processFile (demo_host fs) (ics ''work'') =
     Inr [\<lparr>summary = ''Standup'', start = TimeValue 1705309200000, end_ = TimeValue 1705311000000\<rparr>,
          \<lparr>summary = ''Review'', start = TimeValue 1705330800000, end_ = TimeValue 1705334400000\<rparr>]"
  by (simp add: demo_defs)

lemma demo_home:
  "processFile (demo_host fs) (ics ''home'') =
     Inr [\<lparr>summary = ''Dinner'', start = TimeValue 1705345200000, end_ = TimeValue 1705352400000\<rparr>]"
  by (simp add: demo_defs)

lemma demo_gone: "processFile (demo_host fs) (ics ''gone'') = Inl (Error ''ENOENT'')"
  by (simp add: demo_defs)

lemma demo_broken: "processFile (demo_host fs) (ics ''broken'') = Inl (Error ''invalid ical body'')"
  by (simp add: demo_defs)

lemma demo_mixed: "processFile (demo_host fs) (ics ''mixed'') = Inl (TypeError ''Cannot read properties of null'')"
  by (simp add: demo_defs)

lemma demo_documents:
  "documentEvents (demo_host fs) (ics ''work'') =
     [\<lparr>summary = ''Standup'', start = TimeValue 1705309200000, end_ = TimeValue 1705311000000\<rparr>,
      \<lparr>summary = ''Review'', start = TimeValue 1705330800000, end_ = TimeValue 1705334400000\<rparr>]"
  "documentEvents (demo_host fs) (ics ''home'') =
     [\<lparr>summary = ''Dinner'', start = TimeValue 1705345200000, end_ = TimeValue 1705352400000\<rparr>]"
  "documentEvents (demo_host fs) (ics ''mixed'') = []"
  unfolding pushFile_documentEvents [symmetric] pushFile_processFile
  by (simp_all add: demo_work demo_home demo_mixed)

lemma demo_load:
  "loadEvents (demo_host [ics ''work'', ics ''home'']) demo_plugin =
     Inr (demo_plugin\<lparr>events :=
        [\<lparr>summary = ''Standup'', start = TimeValue 1705309200000, end_ = TimeValue 1705311000000\<rparr>,
         \<lparr>summary = ''Review'', start = TimeValue 1705330800000, end_ = TimeValue 1705334400000\<rparr>,
         \<lparr>summary = ''Dinner'', start = TimeValue 1705345200000, end_ = TimeValue 1705352400000\<rparr>],
        notices := [''Loaded 3 events from ICS files.'']\<rparr>)"
proof -
  have a: "icsDirectory (settings demo_plugin) \<noteq> []"
    by (simp add: demo_plugin_def)
  have b: "vault_getFiles (demo_host [ics ''work'', ics ''home'']) = Inr [ics ''work'', ics ''home'']"
    by (simp add: demo_host_def)
  show ?thesis
    unfolding loadEvents_events [OF a b]
    by (simp add: demo_plugin_def isIcsFile_ics pushFile_def demo_work demo_home notify_def
        decimal.simps digit_def)
qed

lemma demo_awaits:
  "loadEvents_awaits (demo_host [ics ''work'', ics ''home'']) demo_plugin =
     [demo_plugin\<lparr>events := []\<rparr>,
      demo_plugin\<lparr>events :=
        [\<lparr>summary = ''Standup'', start = TimeValue 1705309200000, end_ = TimeValue 1705311000000\<rparr>,
         \<lparr>summary = ''Review'', start = TimeValue 1705330800000, end_ = TimeValue 1705334400000\<rparr>]\<rparr>]"
proof -
  have a: "icsDirectory (settings demo_plugin) \<noteq> []"
    by (simp add: demo_plugin_def)
  have b: "vault_getFiles (demo_host [ics ''work'', ics ''home'']) = Inr [ics ''work'', ics ''home'']"
    by (simp add: demo_host_def)
  show ?thesis
    unfolding loadEvents_awaits_events [OF a b]
    by (simp add: demo_plugin_def isIcsFile_ics pushFile_def demo_work demo_home)
qed

section \<open>The claims\<close>



text \<open>
  C2. When a directory is configured and the vault lists its files, one \<^verbatim>\<open>loadEvents\<close>
  leaves as the collection the concatenation, in file order, of the event lists of the
  calendar files (a file whose processing threw contributes the empty list), whatever the
  collection was before: the previous events are replaced, not merged.
\<close>

theorem loadEvents_replaces_collection:
  assumes "icsDirectory (settings p) \<noteq> []" and "vault_getFiles h = Inr files"
  shows "(\<exists>p'. loadEvents h (p\<lparr>events := previous\<rparr>) = Inr p' \<and>
           events p' =
             concat (map (\<lambda>file. case processFile h file of Inl e \<Rightarrow> [] | Inr evs \<Rightarrow> evs)
                       (filter (isIcsFile (icsDirectory (settings p))) files))) \<and>
         (\<forall>f evs. processFile h f = Inr evs \<longrightarrow>
            (\<exists>vevents. readComponents h f = Inr vevents \<and>
               map (toEvent h) vevents = map Inr evs))"
  using loadEvents_events [of "p\<lparr>events := previous\<rparr>" h files] assms
  by (simp add: events_notify loadLoop_concat pushFile_processFile processFile_components)

theorem loadEvents_replaces_collection_witness:
  "icsDirectory (settings demo_plugin) \<noteq> [] \<and>
   vault_getFiles (demo_host [ics ''work'', ics ''home'']) = Inr [ics ''work'', ics ''home''] \<and>
   (\<exists>p'. loadEvents (demo_host [ics ''work'', ics ''home'']) (demo_plugin\<lparr>events := demo_events\<rparr>) = Inr p' \<and>
      events p' =
        [\<lparr>summary = ''Standup'', start = TimeValue 1705309200000, end_ = TimeValue 1705311000000\<rparr>,
         \<lparr>summary = ''Review'', start = TimeValue 1705330800000, end_ = TimeValue 1705334400000\<rparr>,
         \<lparr>summary = ''Dinner'', start = TimeValue 1705345200000, end_ = TimeValue 1705352400000\<rparr>])"
proof -
  have a: "icsDirectory (settings demo_plugin) \<noteq> []"
    by (simp add: demo_plugin_def)
  have b: "vault_getFiles (demo_host [ics ''work'', ics ''home'']) = Inr [ics ''work'', ics ''home'']"
    by (simp add: demo_host_def)
  show ?thesis
    using loadEvents_replaces_collection [OF a b, of demo_events] a b
    by (auto simp: demo_plugin_def isIcsFile_ics demo_work demo_home)
qed


text \<open>
  C3. The claim that malformed event components are skipped one by one fails:
  \<^verbatim>\<open>cal/mixed.ics\<close> has one well-formed component and one without a start date, and the
  load keeps no event of it.
\<close>

theorem loadEvents_mixed_document_counterexample:
  "loadEvents (demo_host [ics ''mixed'']) demo_plugin =
     Inr (demo_plugin\<lparr>events := [], notices := [''Loaded 0 events from ICS files.'']\<rparr>) \<and>
   wellFormedEvents (demo_host [ics ''mixed'']) (ics ''mixed'') =
     [\<lparr>summary = ''Offsite'', start = TimeValue 1705395600000, end_ = TimeValue 1705399200000\<rparr>] \<and>
   events (demo_plugin\<lparr>events := [], notices := [''Loaded 0 events from ICS files.'']\<rparr>) \<noteq>
     concat (map (wellFormedEvents (demo_host [ics ''mixed''])) [ics ''mixed''])"
proof -
  have a: "icsDirectory (settings demo_plugin) \<noteq> []"
    by (simp add: demo_plugin_def)
  have b: "vault_getFiles (demo_host [ics ''mixed'']) = Inr [ics ''mixed'']"
    by (simp add: demo_host_def)
  have c: "wellFormedEvents (demo_host [ics ''mixed'']) (ics ''mixed'') =
     [\<lparr>summary = ''Offsite'', start = TimeValue 1705395600000, end_ = TimeValue 1705399200000\<rparr>]"
    by (simp add: wellFormedEvents_def demo_defs)
  have d: "loadEvents (demo_host [ics ''mixed'']) demo_plugin =
     Inr (demo_plugin\<lparr>events := [], notices := [''Loaded 0 events from ICS files.'']\<rparr>)"
    unfolding loadEvents_events [OF a b]
    by (simp add: demo_plugin_def isIcsFile_ics pushFile_def demo_mixed notify_def decimal.simps
        digit_def)
  show ?thesis
    using c d by simp
qed


text \<open>
  C3, amended. A document contributes to the load only as a whole: when the conversion of
  each of its event components succeeds it contributes one event for each component, in
  order; when the conversion of any one component throws, as it does for a component
  without a start date-time, or when the document cannot be read or parsed, it contributes
  no event at all. The other documents are not affected.
\<close>

theorem loadEvents_whole_documents:
  assumes "icsDirectory (settings p) \<noteq> []" and "vault_getFiles h = Inr files"
  shows "(\<exists>p'. loadEvents h p = Inr p' \<and>
            events p' =
              concat (map (documentEvents h)
                        (filter (isIcsFile (icsDirectory (settings p))) files))) \<and>
         (\<forall>f vevents v. readComponents h f = Inr vevents \<longrightarrow> v \<in> set vevents \<longrightarrow>
            startDate (new_ICAL_Event h v) = None \<longrightarrow> documentEvents h f = [])"
proof -
  have "documentEvents h f = []"
    if "readComponents h f = Inr vevents" "v \<in> set vevents"
      "startDate (new_ICAL_Event h v) = None" for f vevents v
  proof -
    have "isl (toEvent h v)"
      using that(3) by (simp add: toEvent_def)
    with that(2) have "\<not> list_all (\<lambda>v. \<not> isl (toEvent h v)) vevents"
      by (auto simp: list_all_iff)
    with that(1) show ?thesis
      by (simp add: documentEvents_def)
  qed
  then show ?thesis
    using loadEvents_events [of p h files] assms
    by (simp add: events_notify loadLoop_concat pushFile_documentEvents)
qed

theorem loadEvents_whole_documents_witness:
  "icsDirectory (settings demo_plugin) \<noteq> [] \<and>
   vault_getFiles (demo_host [ics ''work'', ics ''mixed'', ics ''home'']) =
     Inr [ics ''work'', ics ''mixed'', ics ''home''] \<and>
   (\<exists>p'. loadEvents (demo_host [ics ''work'', ics ''mixed'', ics ''home'']) demo_plugin = Inr p' \<and>
      events p' =
        [\<lparr>summary = ''Standup'', start = TimeValue 1705309200000, end_ = TimeValue 1705311000000\<rparr>,
         \<lparr>summary = ''Review'', start = TimeValue 1705330800000, end_ = TimeValue 1705334400000\<rparr>,
         \<lparr>summary = ''Dinner'', start = TimeValue 1705345200000, end_ = TimeValue 1705352400000\<rparr>])"
proof -
  have a: "icsDirectory (settings demo_plugin) \<noteq> []"
    by (simp add: demo_plugin_def)
  have b: "vault_getFiles (demo_host [ics ''work'', ics ''mixed'', ics ''home'']) =
     Inr [ics ''work'', ics ''mixed'', ics ''home'']"
    by (simp add: demo_host_def)
  show ?thesis
    using loadEvents_whole_documents [OF a b] a b
    by (auto simp: demo_plugin_def isIcsFile_ics demo_documents)
qed


text \<open>
  C4. \<^verbatim>\<open>loadEvents\<close> never raises; when it reaches the files, every calendar file is
  processed and the collection is exactly the events of the files whose processing
  succeeded, in order.
\<close>

theorem loadEvents_isolates_failures:
  "\<exists>p'. loadEvents h p = Inr p' \<and>
     (icsDirectory (settings p) \<noteq> [] \<longrightarrow> vault_getFiles h = Inr files \<longrightarrow>
      events p' =
        concat (map (\<lambda>file. projr (processFile h file))
                  (filter (\<lambda>file. \<not> isl (processFile h file))
                     (filter (isIcsFile (icsDirectory (settings p))) files))))"
proof (cases "icsDirectory (settings p) = []")
  case True
  then show ?thesis by (simp add: loadEvents_def)
next
  case False
  show ?thesis
  proof (cases "vault_getFiles h")
    case (Inl e)
    with False show ?thesis by (simp add: loadEvents_def)
  next
    case (Inr fs)
    show ?thesis
      using loadEvents_events [OF False Inr] Inr
      by (auto simp add: events_notify loadLoop_concat pushFile_processFile concat_succeeded
          simp del: filter_filter)
  qed
qed

theorem loadEvents_isolates_failures_witness:
  "\<exists>p'. loadEvents (demo_host [ics ''work'', ics ''gone'', ics ''broken'', ics ''home'']) demo_plugin = Inr p' \<and>
     icsDirectory (settings demo_plugin) \<noteq> [] \<and>
     vault_getFiles (demo_host [ics ''work'', ics ''gone'', ics ''broken'', ics ''home'']) =
       Inr [ics ''work'', ics ''gone'', ics ''broken'', ics ''home''] \<and>
     events p' =
        [\<lparr>summary = ''Standup'', start = TimeValue 1705309200000, end_ = TimeValue 1705311000000\<rparr>,
         \<lparr>summary = ''Review'', start = TimeValue 1705330800000, end_ = TimeValue 1705334400000\<rparr>,
         \<lparr>summary = ''Dinner'', start = TimeValue 1705345200000, end_ = TimeValue 1705352400000\<rparr>]"
proof -
  have a: "icsDirectory (settings demo_plugin) \<noteq> []"
    by (simp add: demo_plugin_def)
  have b: "vault_getFiles (demo_host [ics ''work'', ics ''gone'', ics ''broken'', ics ''home'']) =
     Inr [ics ''work'', ics ''gone'', ics ''broken'', ics ''home'']"
    by (simp add: demo_host_def)
  show ?thesis
    using loadEvents_isolates_failures
      [of "demo_host [ics ''work'', ics ''gone'', ics ''broken'', ics ''home'']" demo_plugin
        "[ics ''work'', ics ''gone'', ics ''broken'', ics ''home'']"] a b
    by (simp add: demo_plugin_def isIcsFile_ics demo_work demo_home demo_gone demo_broken)
qed


text \<open>
  C5. \<^verbatim>\<open>formatEvents\<close> of the empty sequence is the sentinel "No events for this date.";
  the two renderers of today's events return "No events for today." when there is none
  today; and \<^verbatim>\<open>formatEvents\<close> never returns the empty string or the bare header.
\<close>

theorem empty_sentinels:
  "formatEvents tza [] = Inr ''No events for this date.'' \<and>
   (getTodaysEvents tza today p = [] \<longrightarrow>
      getTodaysEventsForTemplater tza today p = Inr ''No events for today.'' \<and>
      templaterCommand tza today p = Inr ''No events for today.'') \<and>
   formatEvents tza evs \<noteq> Inr [] \<and>
   formatEvents tza evs \<noteq> Inr ''| Time | Event |\<newline>|------|-------|\<newline>'' \<and>
   getTodaysEventsForTemplater tza today p \<noteq> Inr [] \<and>
   getTodaysEventsForTemplater tza today p \<noteq> Inr ''| Time | Event |\<newline>|------|-------|\<newline>''"
  using formatEvents_not_bare [of tza evs] formatEvents_not_bare [of tza "getTodaysEvents tza today p"]
  by (simp add: getTodaysEventsForTemplater_eq templaterCommand_eq) (simp add: formatEvents_def)

theorem empty_sentinels_witness:
  "formatEvents demo_tza [] = Inr ''No events for this date.'' \<and>
   getTodaysEvents demo_tza (TimeValue 1705273200000) (demo_plugin\<lparr>events := []\<rparr>) = [] \<and>
   getTodaysEventsForTemplater demo_tza (TimeValue 1705273200000) (demo_plugin\<lparr>events := []\<rparr>) =
     Inr ''No events for today.''"
  using empty_sentinels [of demo_tza "TimeValue 1705273200000" "demo_plugin\<lparr>events := []\<rparr>" "[]"]
  by (simp add: getTodaysEvents_def)


text \<open>
  C6. For a non-empty sequence of events whose starts are instants, \<^verbatim>\<open>formatEvents\<close>
  returns the two header lines followed by one row for each event, in order, of the form
  "| HH:mm | summary |", where HH:mm is the 24-hour clock time of the start in local time:
  the whole hours since local midnight, 00 to 23, and the whole minutes of that hour, 00 to
  59, with two digits each.
\<close>

theorem formatEvents_table:
  assumes "evs \<noteq> []" and "\<forall>e\<in>set evs. start e \<noteq> InvalidDate"
  shows "formatEvents tza evs =
           Inr (''| Time | Event |\<newline>|------|-------|\<newline>'' @ concat (map (tableRow tza) evs))"
  using assms by (simp add: formatEvents_def formatEvents_rows_table)

theorem formatEvents_table_witness:
  "[\<lparr>summary = ''Lunch'', start = TimeValue 1705318500000, end_ = TimeValue 1705322100000\<rparr>,
    \<lparr>summary = ''Coffee'', start = TimeValue 1705305900000, end_ = TimeValue 1705306800000\<rparr>,
    \<lparr>summary = ''Late'', start = TimeValue 1705359540000, end_ = TimeValue 1705363140000\<rparr>] \<noteq> [] \<and>
   TimeValue 1705318500000 \<noteq> InvalidDate \<and> TimeValue 1705305900000 \<noteq> InvalidDate \<and>
   TimeValue 1705359540000 \<noteq> InvalidDate \<and>
   formatEvents demo_tza
     [\<lparr>summary = ''Lunch'', start = TimeValue 1705318500000, end_ = TimeValue 1705322100000\<rparr>,
      \<lparr>summary = ''Coffee'', start = TimeValue 1705305900000, end_ = TimeValue 1705306800000\<rparr>,
      \<lparr>summary = ''Late'', start = TimeValue 1705359540000, end_ = TimeValue 1705363140000\<rparr>] =
     Inr ''| Time | Event |\<newline>|------|-------|\<newline>| 12:35 | Lunch |\<newline>| 09:05 | Coffee |\<newline>| 23:59 | Late |\<newline>''"
  using formatEvents_table
    [of "[\<lparr>summary = ''Lunch'', start = TimeValue 1705318500000, end_ = TimeValue 1705322100000\<rparr>,
          \<lparr>summary = ''Coffee'', start = TimeValue 1705305900000, end_ = TimeValue 1705306800000\<rparr>,
          \<lparr>summary = ''Late'', start = TimeValue 1705359540000, end_ = TimeValue 1705363140000\<rparr>]"
      demo_tza]
  by (simp add: demo_rows)

text \<open>
  C7. The claim that a query never sees a half-replaced collection fails: while the load
  of two files waits for the second one, \<^verbatim>\<open>getEventsForDate\<close> returns neither what it
  returned before the load nor what it returns after it.
\<close>

theorem query_during_load_counterexample:
  "getEventsForDate demo_tza
     (loadEvents_awaits (demo_host [ics ''work'', ics ''home'']) demo_plugin ! 1)
     (TimeValue 1705273200000) \<noteq>
   getEventsForDate demo_tza demo_plugin (TimeValue 1705273200000) \<and>
   getEventsForDate demo_tza
     (loadEvents_awaits (demo_host [ics ''work'', ics ''home'']) demo_plugin ! 1)
     (TimeValue 1705273200000) \<noteq>
   getEventsForDate demo_tza
     (projr (loadEvents (demo_host [ics ''work'', ics ''home'']) demo_plugin))
     (TimeValue 1705273200000)"
  unfolding demo_awaits demo_load
  by (simp add: getEventsForDate_def new_Date_def demo_plugin_def demo_events_def demo_days)


text \<open>
  C7, amended. \<^verbatim>\<open>loadEvents\<close> waits once for each calendar file, at the read of that
  file. While it waits for the read of its i-th calendar file, counted from 0, the
  collection a query sees is the one rebuilt so far: exactly the events of the files before
  the i-th, whatever the collection was before the load, and a prefix of the collection the
  load ends with.
\<close>

theorem loadEvents_awaits_rebuilt_so_far:
  assumes "icsDirectory (settings p) \<noteq> []" and "vault_getFiles h = Inr files"
    and "i < length (filter (isIcsFile (icsDirectory (settings p))) files)"
  shows "\<exists>p'. loadEvents h p = Inr p' \<and>
           length (loadEvents_awaits h p) =
             length (filter (isIcsFile (icsDirectory (settings p))) files) \<and>
           events (loadEvents_awaits h p ! i) =
             concat (map (documentEvents h)
                       (take i (filter (isIcsFile (icsDirectory (settings p))) files))) \<and>
           prefix (events (loadEvents_awaits h p ! i)) (events p')"
proof -
  let ?fs = "filter (isIcsFile (icsDirectory (settings p))) files"
  have a: "loadEvents_awaits h p ! i = p\<lparr>events := loadLoop h (take i ?fs) []\<rparr>"
    using assms(3)
    by (simp add: loadEvents_awaits_events [OF assms(1,2)] length_loadLoop_awaits
        loadLoop_awaits_nth)
  have b: "length (loadEvents_awaits h p) = length ?fs"
    by (simp add: loadEvents_awaits_events [OF assms(1,2)] length_loadLoop_awaits)
  show ?thesis
    unfolding loadEvents_events [OF assms(1,2)] a b
    using loadLoop_take_prefix [of h i ?fs "[]"]
    by (simp add: events_notify loadLoop_concat pushFile_documentEvents)
qed

theorem loadEvents_awaits_rebuilt_so_far_witness:
  "icsDirectory (settings demo_plugin) \<noteq> [] \<and>
   vault_getFiles (demo_host [ics ''work'', ics ''home'']) = Inr [ics ''work'', ics ''home''] \<and>
   (1::nat) < length (filter (isIcsFile (icsDirectory (settings demo_plugin))) [ics ''work'', ics ''home'']) \<and>
   (\<exists>p'. loadEvents (demo_host [ics ''work'', ics ''home'']) demo_plugin = Inr p' \<and>
     events (loadEvents_awaits (demo_host [ics ''work'', ics ''home'']) demo_plugin ! 1) =
       [\<lparr>summary = ''Standup'', start = TimeValue 1705309200000, end_ = TimeValue 1705311000000\<rparr>,
        \<lparr>summary = ''Review'', start = TimeValue 1705330800000, end_ = TimeValue 1705334400000\<rparr>] \<and>
     prefix (events (loadEvents_awaits (demo_host [ics ''work'', ics ''home'']) demo_plugin ! 1))
       (events p'))"
proof -
  have a: "icsDirectory (settings demo_plugin) \<noteq> []"
    by (simp add: demo_plugin_def)
  have b: "vault_getFiles (demo_host [ics ''work'', ics ''home'']) = Inr [ics ''work'', ics ''home'']"
    by (simp add: demo_host_def)
  have c: "(1::nat) < length (filter (isIcsFile (icsDirectory (settings demo_plugin))) [ics ''work'', ics ''home''])"
    by (simp add: demo_plugin_def isIcsFile_ics)
  show ?thesis
    using loadEvents_awaits_rebuilt_so_far [OF a b c] a b c
    by (auto simp: demo_plugin_def isIcsFile_ics demo_documents)
qed


text \<open>
  C8. Two calls of \<^verbatim>\<open>getEventsForDate\<close> with the same date return equal sequences when
  no \<^verbatim>\<open>loadEvents\<close> runs between them, whatever other calls do.
\<close>

theorem getEventsForDate_repeatable:
  assumes "LoadEvents \<notin> set rs"
  shows "hd (fst (run h tza (GetEventsForDate d # rs @ [GetEventsForDate d]) p)) =
           Events (getEventsForDate tza p d) \<and>
         last (fst (run h tza (GetEventsForDate d # rs @ [GetEventsForDate d]) p)) =
           Events (getEventsForDate tza p d)"
proof -
  have "events (snd (run h tza rs p)) = events p"
    using assms by (rule run_keeps_events)
  then have "getEventsForDate tza (snd (run h tza rs p)) d = getEventsForDate tza p d"
    by (rule getEventsForDate_cong)
  then show ?thesis
    by (simp add: split_beta run_append invoke_def)
qed

theorem getEventsForDate_repeatable_witness:
  "LoadEvents \<notin> set [GetTodaysEvents (TimeValue 0), SetIcsDirectory ''elsewhere'', FormatEvents demo_events] \<and>
   hd (fst (run (demo_host [ics ''work'']) demo_tza
     (GetEventsForDate (TimeValue 1705273200000) #
      [GetTodaysEvents (TimeValue 0), SetIcsDirectory ''elsewhere'', FormatEvents demo_events] @
      [GetEventsForDate (TimeValue 1705273200000)]) demo_plugin)) =
   last (fst (run (demo_host [ics ''work'']) demo_tza
     (GetEventsForDate (TimeValue 1705273200000) #
      [GetTodaysEvents (TimeValue 0), SetIcsDirectory ''elsewhere'', FormatEvents demo_events] @
      [GetEventsForDate (TimeValue 1705273200000)]) demo_plugin))"
  using getEventsForDate_repeatable
    [of "[GetTodaysEvents (TimeValue 0), SetIcsDirectory ''elsewhere'', FormatEvents demo_events]"
      "demo_host [ics ''work'']" demo_tza "TimeValue 1705273200000" demo_plugin]
  by simp


text \<open>
  C9. With the empty string as directory setting, \<^verbatim>\<open>loadEvents\<close> returns at once: the
  collection and the settings are as before, and the only effect is a notice.
\<close>

theorem loadEvents_without_directory:
  assumes "icsDirectory (settings p) = []"
  shows "\<exists>p'. loadEvents h p = Inr p' \<and> events p' = events p \<and> settings p' = settings p \<and>
           notices p' = notices p @ [''ICS directory not set. Please configure in settings.'']"
  using assms by (simp add: loadEvents_def notify_def)

theorem loadEvents_without_directory_witness:
  "icsDirectory (settings (demo_plugin\<lparr>settings := \<lparr>icsDirectory = []\<rparr>\<rparr>)) = [] \<and>
   (\<exists>p'. loadEvents (demo_host [ics ''work'']) (demo_plugin\<lparr>settings := \<lparr>icsDirectory = []\<rparr>\<rparr>) = Inr p' \<and>
      events p' = demo_events)"
  using loadEvents_without_directory
    [of "demo_plugin\<lparr>settings := \<lparr>icsDirectory = []\<rparr>\<rparr>" "demo_host [ics ''work'']"]
  by (auto simp: demo_plugin_def)


text \<open>
  C10. \<^verbatim>\<open>getTodaysEventsForTemplater\<close> returns what \<^verbatim>\<open>formatEvents\<close> returns on today's
  events when there are some, character for character; when there are none the two differ
  in the sentinel only. The command callback of \<^verbatim>\<open>onload\<close> agrees with both.
\<close>

theorem renderers_agree:
  "(getTodaysEvents tza today p \<noteq> [] \<longrightarrow>
      getTodaysEventsForTemplater tza today p = formatEvents tza (getTodaysEvents tza today p)) \<and>
   (getTodaysEvents tza today p = [] \<longrightarrow>
      getTodaysEventsForTemplater tza today p = Inr ''No events for today.'' \<and>
      formatEvents tza (getTodaysEvents tza today p) = Inr ''No events for this date.'') \<and>
   templaterCommand tza today p = getTodaysEventsForTemplater tza today p"
  by (simp add: getTodaysEventsForTemplater_eq templaterCommand_eq) (simp add: formatEvents_def)

theorem renderers_agree_witness:
  "getTodaysEvents demo_tza (TimeValue 1705273200000) demo_plugin \<noteq> [] \<and>
   getTodaysEventsForTemplater demo_tza (TimeValue 1705273200000) demo_plugin =
     formatEvents demo_tza (getTodaysEvents demo_tza (TimeValue 1705273200000) demo_plugin) \<and>
   getTodaysEvents demo_tza (TimeValue 1705273200000) (demo_plugin\<lparr>events := []\<rparr>) = [] \<and>
   getTodaysEventsForTemplater demo_tza (TimeValue 1705273200000) (demo_plugin\<lparr>events := []\<rparr>) =
     Inr ''No events for today.'' \<and>
   formatEvents demo_tza (getTodaysEvents demo_tza (TimeValue 1705273200000) (demo_plugin\<lparr>events := []\<rparr>)) =
     Inr ''No events for this date.''"
  using renderers_agree [of demo_tza "TimeValue 1705273200000" demo_plugin]
    renderers_agree [of demo_tza "TimeValue 1705273200000" "demo_plugin\<lparr>events := []\<rparr>"]
  by (simp add: demo_today) (simp add: getTodaysEvents_def)


end
